theory Spec2Isabelle
  imports Main
begin

section \<open>Python strings\<close>

text \<open>
  A Python \<open>str\<close> is a sequence of Unicode code points, and \<open>len\<close> counts code points.
  A string is therefore a list of code points, each a natural number; \<open>ascii\<close> reads an
  ASCII literal, whose characters are their own code points.
\<close>

type_synonym pystr = "nat list"

definition ascii :: "string \<Rightarrow> pystr" where
  "ascii s = map of_char s"

text \<open>
  \<open>str.strip\<close>, \<open>\s\<close>, \<open>\d\<close> and \<open>\w\<close> classify code points with the interpreter's
  Unicode tables, which are not part of the repository. On ASCII the classification is
  fixed and written out here; beyond ASCII the tables are a parameter:
  \<^item> whitespace: TAB, LF, VT, FF, CR, the separators FS, GS, RS, US and the space;
  \<^item> decimal: \<open>0\<close> to \<open>9\<close>;
  \<^item> alphanumeric: alphabetic, decimal, digit or numeric; on ASCII the letters and
    \<open>0\<close> to \<open>9\<close>.
\<close>

record unicode_db =
  uni_isspace :: "nat \<Rightarrow> bool"
  uni_isdecimal :: "nat \<Rightarrow> bool"
  uni_isalpha :: "nat \<Rightarrow> bool"
  uni_isdigit :: "nat \<Rightarrow> bool"
  uni_isnumeric :: "nat \<Rightarrow> bool"

definition isspace :: "unicode_db \<Rightarrow> nat \<Rightarrow> bool" where
  "isspace U c =
     (if c < 128 then (9 \<le> c \<and> c \<le> 13) \<or> (28 \<le> c \<and> c \<le> 32) else uni_isspace U c)"

definition isdecimal :: "unicode_db \<Rightarrow> nat \<Rightarrow> bool" where
  "isdecimal U c = (if c < 128 then 48 \<le> c \<and> c \<le> 57 else uni_isdecimal U c)"

definition isalpha :: "unicode_db \<Rightarrow> nat \<Rightarrow> bool" where
  "isalpha U c =
     (if c < 128 then (65 \<le> c \<and> c \<le> 90) \<or> (97 \<le> c \<and> c \<le> 122) else uni_isalpha U c)"

definition isdigit :: "unicode_db \<Rightarrow> nat \<Rightarrow> bool" where
  "isdigit U c = (if c < 128 then 48 \<le> c \<and> c \<le> 57 else uni_isdigit U c)"

definition isnumeric :: "unicode_db \<Rightarrow> nat \<Rightarrow> bool" where
  "isnumeric U c = (if c < 128 then 48 \<le> c \<and> c \<le> 57 else uni_isnumeric U c)"

definition isalnum :: "unicode_db \<Rightarrow> nat \<Rightarrow> bool" where
  "isalnum U c = (isalpha U c \<or> isdecimal U c \<or> isdigit U c \<or> isnumeric U c)"

text \<open>A word character of \<open>re\<close>: alphanumeric or the underscore.\<close>

definition isword :: "unicode_db \<Rightarrow> nat \<Rightarrow> bool" where
  "isword U c = (isalnum U c \<or> c = 95)"

text \<open>\<open>s.strip()\<close>: the string without its leading and trailing whitespace.\<close>

definition lstrip :: "unicode_db \<Rightarrow> pystr \<Rightarrow> pystr" where
  "lstrip U s = dropWhile (isspace U) s"

definition rstrip :: "unicode_db \<Rightarrow> pystr \<Rightarrow> pystr" where
  "rstrip U s = rev (dropWhile (isspace U) (rev s))"

definition strip :: "unicode_db \<Rightarrow> pystr \<Rightarrow> pystr" where
  "strip U s = rstrip U (lstrip U s)"

text \<open>\<open>sep.join(xs)\<close>.\<close>

fun str_join :: "pystr \<Rightarrow> pystr list \<Rightarrow> pystr" where
  "str_join sep [] = []"
| "str_join sep [x] = x"
| "str_join sep (x # y # ys) = x @ sep @ str_join sep (y # ys)"

section \<open>Regular expressions and \<open>re.search\<close>\<close>

text \<open>
  The three patterns of \<open>pii_scan\<close> use character classes, the word boundary \<open>\b\<close>,
  concatenation and counted repetition (\<open>?\<close>, \<open>+\<close>, \<open>*?\<close>, \<open>{m,n}\<close>, \<open>{m,}\<close>).
  \<open>re.search\<close> backtracks over every way of matching, so it finds a match exactly when
  one exists; greedy and lazy repetition differ only in which match is found first.
\<close>

datatype atom = Word | Digit | Space | Lit nat

datatype regex =
    Eps
  | In "atom list"
  | Boundary
  | Cat regex regex
  | Repeat nat "nat option" regex

fun in_atom :: "unicode_db \<Rightarrow> atom \<Rightarrow> nat \<Rightarrow> bool" where
  "in_atom U Word c = isword U c"
| "in_atom U Digit c = isdecimal U c"
| "in_atom U Space c = isspace U c"
| "in_atom U (Lit l) c = (c = l)"

definition in_class :: "unicode_db \<Rightarrow> atom list \<Rightarrow> nat \<Rightarrow> bool" where
  "in_class U as c = list_ex (\<lambda>a. in_atom U a c) as"

text \<open>
  A position in the text: the character before it, if any, and the text from it on.
\<close>

type_synonym pos = "nat option \<times> pystr"

text \<open>
  \<open>\b\<close> holds where exactly one of the characters before and after the position is a
  word character; the start and the end of the text count as non-word.
\<close>

definition word_before :: "unicode_db \<Rightarrow> pos \<Rightarrow> bool" where
  "word_before U p = (case fst p of None \<Rightarrow> False | Some c \<Rightarrow> isword U c)"

definition word_after :: "unicode_db \<Rightarrow> pos \<Rightarrow> bool" where
  "word_after U p = (case snd p of [] \<Rightarrow> False | c # cs \<Rightarrow> isword U c)"

definition at_boundary :: "unicode_db \<Rightarrow> pos \<Rightarrow> bool" where
  "at_boundary U p = (word_before U p \<noteq> word_after U p)"

text \<open>
  \<open>times f k ps\<close>: the positions reached from \<open>ps\<close> by exactly \<open>k\<close> rounds of \<open>f\<close>;
  \<open>upto f k ps\<close>: by at most \<open>k\<close> rounds.
\<close>

fun times :: "(pos \<Rightarrow> pos list) \<Rightarrow> nat \<Rightarrow> pos list \<Rightarrow> pos list" where
  "times f k [] = []"
| "times f 0 ps = ps"
| "times f (Suc k) ps = times f k (concat (map f ps))"

fun upto :: "(pos \<Rightarrow> pos list) \<Rightarrow> nat \<Rightarrow> pos list \<Rightarrow> pos list" where
  "upto f k [] = []"
| "upto f 0 ps = ps"
| "upto f (Suc k) ps = ps @ upto f k (concat (map f ps))"

text \<open>
  \<open>ends U r p\<close>: the positions at which a match of \<open>r\<close> that starts at \<open>p\<close> can end.
  An unbounded repetition needs no more rounds than there are characters left, since a
  round that consumes nothing reaches no new position.
\<close>

primrec ends :: "unicode_db \<Rightarrow> regex \<Rightarrow> pos \<Rightarrow> pos list" where
  "ends U Eps = (\<lambda>p. [p])"
| "ends U (In as) =
     (\<lambda>p. case snd p of [] \<Rightarrow> [] | c # cs \<Rightarrow> if in_class U as c then [(Some c, cs)] else [])"
| "ends U Boundary = (\<lambda>p. if at_boundary U p then [p] else [])"
| "ends U (Cat r s) = (\<lambda>p. concat (map (ends U s) (ends U r p)))"
| "ends U (Repeat m n r) =
     (\<lambda>p. upto (ends U r) (case n of None \<Rightarrow> length (snd p) | Some k \<Rightarrow> k - m)
            (times (ends U r) m [p]))"

definition seq :: "regex list \<Rightarrow> regex" where
  "seq rs = foldr Cat rs Eps"

definition opt :: "regex \<Rightarrow> regex" where
  "opt r = Repeat 0 (Some 1) r"

text \<open>Every position of a text, from its start to its end.\<close>

fun positions :: "nat option \<Rightarrow> pystr \<Rightarrow> pos list" where
  "positions b [] = [(b, [])]"
| "positions b (c # cs) = (b, c # cs) # positions (Some c) cs"

text \<open>\<open>re.search(r, text)\<close> as a truth value: some position starts a match.\<close>

definition re_search :: "unicode_db \<Rightarrow> regex \<Rightarrow> pystr \<Rightarrow> bool" where
  "re_search U r text = list_ex (\<lambda>p. ends U r p \<noteq> []) (positions None text)"

subsection \<open>What a pattern means\<close>

text \<open>
  The meaning of a pattern is a relation between positions: a match that starts at the
  first can end at the second. A repetition is a number of rounds of its body within
  the bounds, each round starting where the last one ended. \<open>ends\<close> is shown below to
  compute exactly this relation, for patterns whose bounds are in order.
\<close>

primrec well_formed :: "regex \<Rightarrow> bool" where
  "well_formed Eps = True"
| "well_formed (In as) = True"
| "well_formed Boundary = True"
| "well_formed (Cat r s) = (well_formed r \<and> well_formed s)"
| "well_formed (Repeat m n r) = ((case n of None \<Rightarrow> True | Some k \<Rightarrow> m \<le> k) \<and> well_formed r)"

primrec rounds :: "(pos \<Rightarrow> pos \<Rightarrow> bool) \<Rightarrow> nat \<Rightarrow> pos \<Rightarrow> pos \<Rightarrow> bool" where
  "rounds R 0 = (\<lambda>p q. q = p)"
| "rounds R (Suc k) = (\<lambda>p q. \<exists>p'. R p p' \<and> rounds R k p' q)"

primrec lang :: "unicode_db \<Rightarrow> regex \<Rightarrow> pos \<Rightarrow> pos \<Rightarrow> bool" where
  "lang U Eps = (\<lambda>p q. q = p)"
| "lang U (In as) = (\<lambda>p q. \<exists>c cs. snd p = c # cs \<and> in_class U as c \<and> q = (Some c, cs))"
| "lang U Boundary = (\<lambda>p q. at_boundary U p \<and> q = p)"
| "lang U (Cat r s) = (\<lambda>p q. \<exists>m. lang U r p m \<and> lang U s m q)"
| "lang U (Repeat m n r) =
     (\<lambda>p q. \<exists>k. m \<le> k \<and> (case n of None \<Rightarrow> True | Some j \<Rightarrow> k \<le> j) \<and> rounds (lang U r) k p q)"

text \<open>One round of a matcher, as a relation.\<close>

definition step :: "(pos \<Rightarrow> pos list) \<Rightarrow> pos \<Rightarrow> pos \<Rightarrow> bool" where
  "step f p q = (q \<in> set (f p))"

text \<open>A match ends where it starts or behind it.\<close>

definition forward :: "(pos \<Rightarrow> pos \<Rightarrow> bool) \<Rightarrow> bool" where
  "forward R = (\<forall>p q. R p q \<longrightarrow> q = p \<or> length (snd q) < length (snd p))"

section \<open>The PII scanner\<close>

text \<open>\<^verbatim>\<open>\b[\w\.-]+@[\w\.-]+\.\w{2,}\b\<close>\<close>

definition email_re :: regex where
  "email_re = seq
     [Boundary,
      Repeat 1 None (In [Word, Lit 46, Lit 45]),
      In [Lit 64],
      Repeat 1 None (In [Word, Lit 46, Lit 45]),
      In [Lit 46],
      Repeat 2 None (In [Word]),
      Boundary]"

text \<open>\<^verbatim>\<open>\b(?:\+?\d{1,3}[-.\s]?)?(?:\(?\d{3}\)?[-.\s]?)?\d{3}[-.\s]?\d{4}\b\<close>\<close>

definition phone_re :: regex where
  "phone_re = seq
     [Boundary,
      opt (seq [opt (In [Lit 43]), Repeat 1 (Some 3) (In [Digit]),
                opt (In [Lit 45, Lit 46, Space])]),
      opt (seq [opt (In [Lit 40]), Repeat 3 (Some 3) (In [Digit]), opt (In [Lit 41]),
                opt (In [Lit 45, Lit 46, Space])]),
      Repeat 3 (Some 3) (In [Digit]),
      opt (In [Lit 45, Lit 46, Space]),
      Repeat 4 (Some 4) (In [Digit]),
      Boundary]"

text \<open>\<^verbatim>\<open>\b(?:\d[ -]*?){13,16}\b\<close>\<close>

definition card_re :: regex where
  "card_re = seq
     [Boundary,
      Repeat 13 (Some 16) (seq [In [Digit], Repeat 0 None (In [Lit 32, Lit 45])]),
      Boundary]"

definition pii_scan :: "unicode_db \<Rightarrow> pystr \<Rightarrow> pystr list" where
  "pii_scan U text =
     (let flags = [];
          flags = (if re_search U email_re text then flags @ [ascii ''email''] else flags);
          flags = (if re_search U phone_re text then flags @ [ascii ''phone''] else flags);
          flags = (if re_search U card_re text then flags @ [ascii ''card-ish''] else flags)
      in flags)"

section \<open>The schema\<close>

text \<open>
  The four models of both front ends. A record type is used twice: with the field types
  of the Python class for a validated instance, and with \<open>option\<close> field types for the
  object the backend sends, where a key may be absent. The backend's object is taken
  after parsing: every key that is present holds a value of the declared type.
\<close>

record 'a ClassificationModel_t =
  domain :: 'a
  type :: 'a

record 'a ScoresModel_t =
  clarity :: 'a
  specificity :: 'a
  answerability :: 'a
  safety :: 'a

record 'a RewritesModel_t =
  minimal :: 'a
  ideal :: 'a

record ('s, 'l, 'c, 'n, 'r) QuestionReview_t =
  original_question :: 's
  missing_info :: 'l
  assumptions :: 'l
  followups :: 'l
  flags :: 'l
  classification :: 'c
  scores :: 'n
  "rewrites" :: 'r

type_synonym ClassificationModel = "pystr ClassificationModel_t"
type_synonym ScoresModel = "int ScoresModel_t"
type_synonym RewritesModel = "pystr RewritesModel_t"
type_synonym QuestionReview =
  "(pystr, pystr list, ClassificationModel, ScoresModel, RewritesModel) QuestionReview_t"

type_synonym ClassificationModel_obj = "pystr option ClassificationModel_t"
type_synonym ScoresModel_obj = "int option ScoresModel_t"
type_synonym RewritesModel_obj = "pystr option RewritesModel_t"
type_synonym QuestionReview_obj =
  "(pystr option, pystr list option, ClassificationModel_obj option,
    ScoresModel_obj option, RewritesModel_obj option) QuestionReview_t"

text \<open>
  A validation error names the place of the offending value and what is wrong with it;
  validation reports the errors of all fields together.
\<close>

datatype error_type =
    missing
  | literal_error
  | greater_than_equal int
  | less_than_equal int
  | string_too_long nat

type_synonym error_details = "pystr list \<times> error_type"

type_synonym 'a validated = "error_details list + 'a"

definition errors :: "'a validated \<Rightarrow> error_details list" where
  "errors v = (case v of Inl es \<Rightarrow> es | Inr x \<Rightarrow> [])"

text \<open>A field at key \<open>name\<close>: its errors are located under that key.\<close>

definition at_key :: "string \<Rightarrow> 'a validated \<Rightarrow> 'a validated" where
  "at_key name v =
     (case v of Inl es \<Rightarrow> Inl (map (\<lambda>(loc, e). (ascii name # loc, e)) es) | Inr x \<Rightarrow> Inr x)"

text \<open>A field without a default (\<open>Field(...)\<close>, or no default at all) is required.\<close>

definition required :: "string \<Rightarrow> ('a \<Rightarrow> 'b validated) \<Rightarrow> 'a option \<Rightarrow> 'b validated" where
  "required name check v =
     (case v of None \<Rightarrow> Inl [([ascii name], missing)] | Some x \<Rightarrow> at_key name (check x))"

text \<open>A field with a default takes it when the key is absent.\<close>

definition with_default ::
  "string \<Rightarrow> 'b \<Rightarrow> ('a \<Rightarrow> 'b validated) \<Rightarrow> 'a option \<Rightarrow> 'b validated" where
  "with_default name d check v =
     (case v of None \<Rightarrow> Inr d | Some x \<Rightarrow> at_key name (check x))"

text \<open>\<open>Literal[...]\<close>\<close>

definition literal :: "string list \<Rightarrow> pystr \<Rightarrow> pystr validated" where
  "literal allowed v = (if v \<in> set (map ascii allowed) then Inr v else Inl [([], literal_error)])"

text \<open>\<open>int\<close> with \<open>Field(ge=lo, le=hi)\<close>\<close>

definition int_ge_le :: "int \<Rightarrow> int \<Rightarrow> int \<Rightarrow> int validated" where
  "int_ge_le lo hi v =
     (if hi < v then Inl [([], less_than_equal hi)]
      else if v < lo then Inl [([], greater_than_equal lo)]
      else Inr v)"

text \<open>\<open>str\<close> with \<open>Field(max_length=n)\<close>\<close>

definition str_max_length :: "nat \<Rightarrow> pystr \<Rightarrow> pystr validated" where
  "str_max_length n v = (if n < length v then Inl [([], string_too_long n)] else Inr v)"

text \<open>\<open>str\<close> and \<open>list[str]\<close> without constraints\<close>

definition unconstrained :: "'a \<Rightarrow> 'a validated" where
  "unconstrained v = Inr v"

definition ClassificationModel_validate ::
  "ClassificationModel_obj \<Rightarrow> ClassificationModel validated" where
  "ClassificationModel_validate obj =
     (let d = required ''domain''
                (literal [''coding'', ''data'', ''business'', ''other'']) (domain obj);
          t = required ''type''
                (literal [''how-to'', ''debug'', ''design'', ''fact'', ''other'']) (type obj)
      in case (d, t) of
           (Inr d', Inr t') \<Rightarrow> Inr \<lparr>domain = d', type = t'\<rparr>
         | _ \<Rightarrow> Inl (errors d @ errors t))"

definition ScoresModel_validate :: "ScoresModel_obj \<Rightarrow> ScoresModel validated" where
  "ScoresModel_validate obj =
     (let c = required ''clarity'' (int_ge_le 0 10) (clarity obj);
          s = required ''specificity'' (int_ge_le 0 10) (specificity obj);
          a = required ''answerability'' (int_ge_le 0 10) (answerability obj);
          f = required ''safety'' (int_ge_le 0 10) (safety obj)
      in case (c, s, a, f) of
           (Inr c', Inr s', Inr a', Inr f') \<Rightarrow>
             Inr \<lparr>clarity = c', specificity = s', answerability = a', safety = f'\<rparr>
         | _ \<Rightarrow> Inl (errors c @ errors s @ errors a @ errors f))"

definition RewritesModel_validate :: "RewritesModel_obj \<Rightarrow> RewritesModel validated" where
  "RewritesModel_validate obj =
     (let m = required ''minimal'' (str_max_length 280) (minimal obj);
          i = required ''ideal'' (str_max_length 280) (ideal obj)
      in case (m, i) of
           (Inr m', Inr i') \<Rightarrow> Inr \<lparr>minimal = m', ideal = i'\<rparr>
         | _ \<Rightarrow> Inl (errors m @ errors i))"

text \<open>
  The two front ends declare \<open>QuestionReview\<close> with the same fields and constraints. They
  differ in \<open>missing_info\<close>, \<open>assumptions\<close> and \<open>followups\<close>, which the command line requires
  and the UI defaults to the empty list.
\<close>

datatype frontend = CLI | ST

definition list_field ::
  "frontend \<Rightarrow> string \<Rightarrow> pystr list option \<Rightarrow> pystr list validated" where
  "list_field fe name v =
     (case fe of CLI \<Rightarrow> required name unconstrained v
               | ST \<Rightarrow> with_default name [] unconstrained v)"

definition QuestionReview_validate ::
  "frontend \<Rightarrow> QuestionReview_obj \<Rightarrow> QuestionReview validated" where
  "QuestionReview_validate fe obj =
     (let q = required ''original_question'' unconstrained (original_question obj);
          m = list_field fe ''missing_info'' (missing_info obj);
          a = list_field fe ''assumptions'' (assumptions obj);
          f = list_field fe ''followups'' (followups obj);
          g = with_default ''flags'' [] unconstrained (flags obj);
          c = required ''classification'' ClassificationModel_validate (classification obj);
          s = required ''scores'' ScoresModel_validate (scores obj);
          r = required ''rewrites'' RewritesModel_validate (rewrites obj)
      in case (q, m, a, f, g, c, s, r) of
           (Inr q', Inr m', Inr a', Inr f', Inr g', Inr c', Inr s', Inr r') \<Rightarrow>
             Inr \<lparr>original_question = q', missing_info = m', assumptions = a', followups = f',
                  flags = g', classification = c', scores = s', rewrites = r'\<rparr>
         | _ \<Rightarrow> Inl (errors q @ errors m @ errors a @ errors f @ errors g @ errors c
                    @ errors s @ errors r))"

section \<open>The generation request and the ground-truth step\<close>

text \<open>
  The backend is outside the repository. For one request it is a function from the
  question to what it finally sends: nothing (unreachable, timed out, gave up), or an
  object for \<open>QuestionReview\<close>. \<open>Runner.run\<close> with \<open>output_type=QuestionReview\<close> validates
  that object and raises when it does not conform, so it yields validated records only.
\<close>

type_synonym backend = "pystr \<Rightarrow> QuestionReview_obj option"

datatype exn =
    ValueError pystr
  | EOFError
  | StreamlitSecretNotFoundError
  | BackendFailure
  | ModelBehaviorError "error_details list"

definition Runner_run :: "frontend \<Rightarrow> backend \<Rightarrow> pystr \<Rightarrow> exn + QuestionReview" where
  "Runner_run fe be q =
     (case be q of
        None \<Rightarrow> Inl BackendFailure
      | Some obj \<Rightarrow>
          (case QuestionReview_validate fe obj of
             Inl es \<Rightarrow> Inl (ModelBehaviorError es)
           | Inr out \<Rightarrow> Inr out))"

text \<open>
  \<^verbatim>\<open>if out.original_question.strip() != user_question.strip():\<close>
  \<^verbatim>\<open>    out = out.model_copy(update={"original_question": user_question})\<close>
\<close>

definition enforce_ground_truth ::
  "unicode_db \<Rightarrow> QuestionReview \<Rightarrow> pystr \<Rightarrow> QuestionReview" where
  "enforce_ground_truth U out user_question =
     (if strip U (original_question out) \<noteq> strip U user_question
      then out\<lparr>original_question := user_question\<rparr>
      else out)"

section \<open>The two programs\<close>

text \<open>
  A run of a program is the list of what it does towards the user and the backend, in
  order, and how it ends.
\<close>

datatype event =
    Generation_request pystr
  | Input_prompt pystr
  | Print pystr
  | Print_json QuestionReview
  | St_error pystr
  | St_warning pystr
  | St_text_area
  | St_code pystr
  | St_write pystr
  | St_metric pystr int
  | St_text pystr
  | St_caption_length nat
  | St_json QuestionReview

datatype outcome = Finished | SystemExit int | Raised exn | St_stop

type_synonym run = "event list \<times> outcome"

text \<open>\<open>not s\<close> for a string that may be \<open>None\<close>\<close>

definition not_str :: "pystr option \<Rightarrow> bool" where
  "not_str s = (case s of None \<Rightarrow> True | Some k \<Rightarrow> k = [])"

subsection \<open>The command line\<close>

definition main :: "unicode_db \<Rightarrow> backend \<Rightarrow> pystr \<Rightarrow> run" where
  "main U be user_question =
     (case Runner_run CLI be user_question of
        Inl e \<Rightarrow> ([Generation_request user_question], Raised e)
      | Inr out \<Rightarrow>
          ([Generation_request user_question,
            Print_json (enforce_ground_truth U out user_question)], Finished))"

text \<open>
  What the script reads: the environment variable (after \<open>load_dotenv\<close>), the argument
  vector, and the line that \<open>input\<close> would return (\<open>None\<close> at end of input).
\<close>

record cli_world =
  getenv_OPENAI_API_KEY :: "pystr option"
  argv :: "pystr list"
  stdin_line :: "pystr option"

definition cli_script :: "unicode_db \<Rightarrow> backend \<Rightarrow> cli_world \<Rightarrow> run" where
  "cli_script U be w =
     (let api_key = getenv_OPENAI_API_KEY w in
      if not_str api_key then ([], Raised (ValueError (ascii ''OPENAI_API_KEY is not set'')))
      else
        let user_q = strip U (str_join (ascii '' '') (drop 1 (argv w))) in
        if user_q \<noteq> [] then main U be user_q
        else
          (case stdin_line w of
             None \<Rightarrow> ([Input_prompt (ascii ''Enter your question: '')], Raised EOFError)
           | Some line \<Rightarrow>
               let user_q = strip U line in
               if user_q = []
               then ([Input_prompt (ascii ''Enter your question: ''),
                      Print (ascii ''No question provided. Exiting.'')], SystemExit 1)
               else
                 (let (evs, res) = main U be user_q
                  in (Input_prompt (ascii ''Enter your question: '') # evs, res))))"

subsection \<open>The Streamlit page\<close>

text \<open>
  One run of the page script. It reads the secrets and the environment variable, the
  text in the question box and whether \<open>Analyze\<close> was clicked. Of what it renders, the
  events keep the parts that show data of the review: headings, the sidebar and the copy
  buttons are left out.

  The secrets are those of a \<open>secrets.toml\<close>, if there is one: \<open>Secrets_file k\<close> is a
  file with the value \<open>k\<close> of the key \<open>OPENAI_API_KEY\<close>, if it has this key. Without any
  file, reading \<open>st.secrets\<close> raises; with one, \<^verbatim>\<open>st.secrets.get(key, default)\<close> is
  the value of the key, or the default where the file does not have the key.
\<close>

datatype secrets = No_secrets_file | Secrets_file "pystr option"

definition secrets_get :: "secrets \<Rightarrow> pystr option \<Rightarrow> exn + pystr option" where
  "secrets_get secs dflt =
     (case secs of
        No_secrets_file \<Rightarrow> Inl StreamlitSecretNotFoundError
      | Secrets_file None \<Rightarrow> Inr dflt
      | Secrets_file (Some k) \<Rightarrow> Inr (Some k))"

record st_world =
  st_secrets :: secrets
  st_getenv_OPENAI_API_KEY :: "pystr option"
  text_area_value :: pystr
  run_btn :: bool

text \<open>
  \<^verbatim>\<open>for item in xs[:n]: st.write(f"- {item}")\<close>, or \<^verbatim>\<open>st.write("_none_")\<close> for an
  empty list.
\<close>

definition bullets :: "nat \<Rightarrow> pystr list \<Rightarrow> event list" where
  "bullets n xs =
     (if xs \<noteq> [] then map (\<lambda>item. St_write (ascii ''- '' @ item)) (take n xs)
      else [St_write (ascii ''_none_'')])"

definition render :: "QuestionReview \<Rightarrow> event list" where
  "render out =
     [St_code (domain (classification out)),
      St_code (type (classification out)),
      (if flags out \<noteq> []
       then St_write (str_join (ascii '' '')
                        (map (\<lambda>f. ascii ''`'' @ f @ ascii ''`'') (flags out)))
       else St_write (ascii ''`none`'')),
      St_metric (ascii ''Clarity'') (clarity (scores out)),
      St_metric (ascii ''Specificity'') (specificity (scores out)),
      St_metric (ascii ''Answerability'') (answerability (scores out)),
      St_metric (ascii ''Safety'') (safety (scores out))]
     @ bullets 6 (missing_info out)
     @ bullets 6 (assumptions out)
     @ bullets 5 (followups out)
     @ [St_text (minimal (rewrites out)),
        St_caption_length (length (minimal (rewrites out))),
        St_text (ideal (rewrites out)),
        St_caption_length (length (ideal (rewrites out))),
        St_json out]"

definition st_script :: "unicode_db \<Rightarrow> backend \<Rightarrow> st_world \<Rightarrow> run" where
  "st_script U be w =
     (case secrets_get (st_secrets w) (st_getenv_OPENAI_API_KEY w) of
        Inl e \<Rightarrow> ([], Raised e)
      | Inr OPENAI_API_KEY \<Rightarrow>
          if not_str OPENAI_API_KEY
          then ([St_error (ascii (''OPENAI_API_KEY is not set. ''
                                  @ ''Add it to .streamlit/secrets.toml or your environment.''))],
                St_stop)
          else
            let user_q = text_area_value w in
            if \<not> run_btn w then ([St_text_area], Finished)
            else if strip U user_q = []
            then ([St_text_area, St_warning (ascii ''Please enter a question.'')], St_stop)
            else
              (case Runner_run ST be user_q of
                 Inl e \<Rightarrow> ([St_text_area, Generation_request user_q], Raised e)
               | Inr out \<Rightarrow>
                   ([St_text_area, Generation_request user_q]
                    @ render (enforce_ground_truth U out user_q), Finished)))"


text \<open>
  For closed examples: the tables that classify nothing beyond ASCII.
\<close>

definition ascii_only :: unicode_db where
  "ascii_only =
     \<lparr>uni_isspace = (\<lambda>c. False), uni_isdecimal = (\<lambda>c. False), uni_isalpha = (\<lambda>c. False),
      uni_isdigit = (\<lambda>c. False), uni_isnumeric = (\<lambda>c. False)\<rparr>"

section \<open>Example data\<close>

text \<open>
  A conforming object, the record it validates to, and two backends: one that answers
  every question with that object (whose \<open>original_question\<close> is a paraphrase), one that
  echoes the question with a blank appended.
\<close>

definition example_obj :: QuestionReview_obj where
  "example_obj =
     \<lparr>original_question = Some (ascii ''How can I fix my SQL query?''),
      missing_info = Some [ascii ''the query'', ascii ''the error message''],
      assumptions = Some [ascii ''PostgreSQL''],
      followups = Some [ascii ''What error do you get?''],
      flags = Some [],
      classification = Some \<lparr>domain = Some (ascii ''data''), type = Some (ascii ''debug'')\<rparr>,
      scores = Some \<lparr>clarity = Some 3, specificity = Some 0, answerability = Some 2,
                     safety = Some 10\<rparr>,
      rewrites = Some \<lparr>minimal = Some (ascii ''Fix this SQL query?''),
                       ideal = Some (replicate 280 233)\<rparr>\<rparr>"

definition example_review :: QuestionReview where
  "example_review =
     \<lparr>original_question = ascii ''How can I fix my SQL query?'',
      missing_info = [ascii ''the query'', ascii ''the error message''],
      assumptions = [ascii ''PostgreSQL''],
      followups = [ascii ''What error do you get?''],
      flags = [],
      classification = \<lparr>domain = ascii ''data'', type = ascii ''debug''\<rparr>,
      scores = \<lparr>clarity = 3, specificity = 0, answerability = 2, safety = 10\<rparr>,
      rewrites = \<lparr>minimal = ascii ''Fix this SQL query?'', ideal = replicate 280 233\<rparr>\<rparr>"

definition paraphrasing_backend :: backend where
  "paraphrasing_backend q = Some example_obj"

definition echoing_backend :: backend where
  "echoing_backend q = Some (example_obj\<lparr>original_question := Some (q @ ascii '' '')\<rparr>)"




text \<open>
  Runs with a credential and a blank question, runs with a credential and a question,
  and runs with a question and no credential: none in the environment, and for the page
  either a secrets file without the key or no secrets file.
\<close>

definition blank_cli_world :: cli_world where
  "blank_cli_world =
     \<lparr>getenv_OPENAI_API_KEY = Some (ascii ''sk-test''),
      argv = [ascii ''askBetterAgentCLI.py'', ascii '' '', []],
      stdin_line = Some (ascii ''   '')\<rparr>"

definition blank_st_world :: st_world where
  "blank_st_world =
     \<lparr>st_secrets = Secrets_file None,
      st_getenv_OPENAI_API_KEY = Some (ascii ''sk-test''),
      text_area_value = ascii ''  '',
      run_btn = True\<rparr>"

definition asking_cli_world :: cli_world where
  "asking_cli_world =
     \<lparr>getenv_OPENAI_API_KEY = Some (ascii ''sk-test''),
      argv = [ascii ''askBetterAgentCLI.py'', ascii ''Fix'', ascii ''this'', ascii ''SQL?''],
      stdin_line = None\<rparr>"

definition asking_st_world :: st_world where
  "asking_st_world =
     \<lparr>st_secrets = Secrets_file (Some (ascii ''sk-test'')),
      st_getenv_OPENAI_API_KEY = None,
      text_area_value = ascii ''Fix this SQL?'',
      run_btn = True\<rparr>"

definition keyless_cli_world :: cli_world where
  "keyless_cli_world =
     \<lparr>getenv_OPENAI_API_KEY = None,
      argv = [ascii ''askBetterAgentCLI.py'', ascii ''Fix'', ascii ''this'', ascii ''SQL?''],
      stdin_line = Some (ascii ''Fix this SQL?'')\<rparr>"

definition keyless_st_world :: st_world where
  "keyless_st_world =
     \<lparr>st_secrets = Secrets_file None,
      st_getenv_OPENAI_API_KEY = Some [],
      text_area_value = ascii ''Fix this SQL?'',
      run_btn = True\<rparr>"

definition no_secrets_st_world :: st_world where
  "no_secrets_st_world =
     \<lparr>st_secrets = No_secrets_file,
      st_getenv_OPENAI_API_KEY = None,
      text_area_value = ascii ''Fix this SQL?'',
      run_btn = True\<rparr>"

text \<open>A character that \<open>\d\<close> matches and \<open>\s\<close> does not.\<close>

definition plain_digit :: "unicode_db \<Rightarrow> nat \<Rightarrow> bool" where
  "plain_digit U c = (isdecimal U c \<and> \<not> isspace U c)"

section \<open>The matcher computes the meaning of a pattern\<close>

lemma rounds_SucI: "R p p' \<Longrightarrow> rounds R k p' q \<Longrightarrow> rounds R (Suc k) p q"
  by (simp del: split_paired_Ex) blast

lemma rounds_SucE:
  assumes "rounds R (Suc k) p q"
  obtains p' where "R p p'" and "rounds R k p' q"
  using assms by (simp del: split_paired_Ex) blast

lemma set_times: "set (times f k ps) = {q. \<exists>p\<in>set ps. rounds (step f) k p q}"
  by (induction f k ps rule: times.induct) (auto simp: step_def)

lemma set_upto: "set (upto f k ps) = {q. \<exists>p\<in>set ps. \<exists>j\<le>k. rounds (step f) j p q}"
proof (induction f k ps rule: upto.induct)
  case (1 f k)
  then show ?case by simp
next
  case (2 f v va)
  then show ?case by auto
next
  case (3 f k v va)
  let ?ps = "v # va"
  have "set (upto f (Suc k) ?ps) = set ?ps \<union> set (upto f k (concat (map f ?ps)))"
    by simp
  also have "\<dots> = set ?ps \<union> {q. \<exists>p\<in>set (concat (map f ?ps)). \<exists>j\<le>k. rounds (step f) j p q}"
    using 3 by simp
  also have "\<dots> = {q. \<exists>p\<in>set ?ps. \<exists>j\<le>Suc k. rounds (step f) j p q}" (is "?L = ?R")
  proof (intro set_eqI iffI)
    fix q assume "q \<in> ?L"
    then consider "q \<in> set ?ps"
      | p' j where "p' \<in> set (concat (map f ?ps))" "j \<le> k" "rounds (step f) j p' q"
      by blast
    then show "q \<in> ?R"
    proof cases
      case 1
      have "rounds (step f) 0 q q" by simp
      with 1 show ?thesis by blast
    next
      case 2
      from 2(1) have "\<exists>p\<in>set ?ps. p' \<in> set (f p)"
        by simp
      then obtain p where p: "p \<in> set ?ps" "p' \<in> set (f p)"
        by blast
      then have "step f p p'"
        by (simp add: step_def)
      with 2(3) have "rounds (step f) (Suc j) p q"
        by (rule rounds_SucI [rotated])
      moreover from 2(2) have "Suc j \<le> Suc k" by simp
      ultimately show ?thesis using p(1) by blast
    qed
  next
    fix q assume "q \<in> ?R"
    then obtain p j where p: "p \<in> set ?ps" and j: "j \<le> Suc k" and r: "rounds (step f) j p q"
      by blast
    show "q \<in> ?L"
    proof (cases j)
      case 0
      with r have "q = p" by simp
      with p show ?thesis by blast
    next
      case (Suc i)
      with r have "rounds (step f) (Suc i) p q" by simp
      then obtain p' where "step f p p'" "rounds (step f) i p' q"
        by (rule rounds_SucE)
      then have "p' \<in> set (f p)" "rounds (step f) i p' q"
        by (simp_all add: step_def)
      moreover from j Suc have "i \<le> k" by simp
      ultimately have "\<exists>p\<in>set (concat (map f ?ps)). \<exists>j\<le>k. rounds (step f) j p q"
        using p by (intro bexI [of _ p'] exI [of _ i]) auto
      then show ?thesis by blast
    qed
  qed
  finally show ?case .
qed

lemma rounds_add: "rounds R (j + k) p q \<longleftrightarrow> (\<exists>m. rounds R j p m \<and> rounds R k m q)"
  by (induction j arbitrary: p) (simp_all del: split_paired_Ex, blast)

lemma rounds_addI: "rounds R j p m \<Longrightarrow> rounds R k m q \<Longrightarrow> rounds R (j + k) p q"
  unfolding rounds_add by blast

lemma rounds_cong: "(\<And>p q. R p q \<longleftrightarrow> S p q) \<Longrightarrow> rounds R k p q \<longleftrightarrow> rounds S k p q"
  by (induction k arbitrary: p) auto

lemma forward_rounds: "forward R \<Longrightarrow> forward (rounds R k)"
proof (induction k)
  case 0
  then show ?case by (simp add: forward_def)
next
  case (Suc k)
  then have "forward (rounds R k)" by simp
  with Suc.prems show ?case
    unfolding forward_def by (simp del: split_paired_All split_paired_Ex) (metis less_trans)
qed

lemma forward_lang: "forward (lang U r)"
proof (induction r)
  case (Cat r s)
  then show ?case
    unfolding forward_def by (simp del: split_paired_All split_paired_Ex) (metis less_trans)
next
  case (Repeat m n r)
  then have "forward (rounds (lang U r) k)" for k
    by (rule forward_rounds)
  then show ?case
    unfolding forward_def by (simp del: split_paired_All split_paired_Ex) blast
qed (auto simp: forward_def)

lemma rounds_fuel:
  assumes "forward R" and "rounds R k p q"
  shows "\<exists>j\<le>length (snd p). rounds R j p q"
  using assms(2)
proof (induction k arbitrary: p)
  case 0
  then have "rounds R 0 p q" by simp
  then show ?case by blast
next
  case (Suc k)
  from Suc.prems obtain p' where s: "R p p'" and r: "rounds R k p' q"
    by (rule rounds_SucE)
  from Suc.IH [OF r] obtain j where j: "j \<le> length (snd p')" "rounds R j p' q"
    by blast
  from assms(1) s consider "p' = p" | "length (snd p') < length (snd p)"
    unfolding forward_def by blast
  then show ?case
  proof cases
    case 1
    with j show ?thesis by blast
  next
    case 2
    with j have "Suc j \<le> length (snd p)" by simp
    moreover from s j(2) have "rounds R (Suc j) p q" by (rule rounds_SucI)
    ultimately show ?thesis by blast
  qed
qed

theorem ends_lang: "well_formed r \<Longrightarrow> set (ends U r p) = {q. lang U r p q}"
proof (induction r arbitrary: p)
  case Eps
  show ?case by simp
next
  case (In as)
  show ?case by (cases p) (auto split: list.splits)
next
  case Boundary
  show ?case by auto
next
  case (Cat r s)
  then show ?case by auto
next
  case (Repeat m n r)
  then have wf: "well_formed r" by simp
  have st: "step (ends U r) p q \<longleftrightarrow> lang U r p q" for p q
    using Repeat.IH [OF wf, of p] by (auto simp: step_def)
  have rd: "rounds (step (ends U r)) k p q \<longleftrightarrow> rounds (lang U r) k p q" for k p q
    by (rule rounds_cong) (rule st)
  have fw: "forward (lang U r)" by (rule forward_lang)
  show ?case
  proof (cases n)
    case None
    have "set (ends U (Repeat m n r) p)
          = {q. \<exists>p'. rounds (lang U r) m p p' \<and> (\<exists>j\<le>length (snd p). rounds (lang U r) j p' q)}"
      by (simp add: None set_upto set_times rd)
    also have "\<dots> = {q. \<exists>k\<ge>m. rounds (lang U r) k p q}" (is "?L = ?R")
    proof (intro set_eqI iffI)
      fix q assume "q \<in> ?L"
      then obtain p' j where "rounds (lang U r) m p p'" "rounds (lang U r) j p' q"
        by blast
      then have "rounds (lang U r) (m + j) p q"
        by (rule rounds_addI)
      then show "q \<in> ?R"
        by (intro CollectI exI [of _ "m + j"]) simp
    next
      fix q assume "q \<in> ?R"
      then obtain k where k: "m \<le> k" "rounds (lang U r) k p q"
        by blast
      then have "rounds (lang U r) (m + (k - m)) p q"
        by simp
      then obtain p' where p': "rounds (lang U r) m p p'" "rounds (lang U r) (k - m) p' q"
        unfolding rounds_add by blast
      from rounds_fuel [OF fw p'(2)] obtain j
        where j: "j \<le> length (snd p')" "rounds (lang U r) j p' q"
        by blast
      from forward_rounds [OF fw, of m] p'(1) have "length (snd p') \<le> length (snd p)"
        unfolding forward_def by (metis less_imp_le order_refl)
      with j p'(1) show "q \<in> ?L"
        by (intro CollectI exI [of _ p'] conjI exI [of _ j]) simp_all
    qed
    finally show ?thesis
      by (simp add: None)
  next
    case (Some b)
    with Repeat.prems have mb: "m \<le> b" by simp
    have "set (ends U (Repeat m n r) p)
          = {q. \<exists>p'. rounds (lang U r) m p p' \<and> (\<exists>j\<le>b - m. rounds (lang U r) j p' q)}"
      by (simp add: Some set_upto set_times rd)
    also have "\<dots> = {q. \<exists>k\<ge>m. k \<le> b \<and> rounds (lang U r) k p q}" (is "?L = ?R")
    proof (intro set_eqI iffI)
      fix q assume "q \<in> ?L"
      then obtain p' j where "rounds (lang U r) m p p'" "j \<le> b - m" "rounds (lang U r) j p' q"
        by blast
      then have "rounds (lang U r) (m + j) p q" "m + j \<le> b"
        using mb by (simp_all add: rounds_addI)
      then show "q \<in> ?R"
        by (intro CollectI exI [of _ "m + j"]) simp
    next
      fix q assume "q \<in> ?R"
      then obtain k where k: "m \<le> k" "k \<le> b" "rounds (lang U r) k p q"
        by blast
      then have "rounds (lang U r) (m + (k - m)) p q"
        by simp
      then obtain p' where p': "rounds (lang U r) m p p'" "rounds (lang U r) (k - m) p' q"
        unfolding rounds_add by blast
      moreover from k have "k - m \<le> b - m" by simp
      ultimately show "q \<in> ?L"
        by blast
    qed
    finally show ?thesis
      by (simp add: Some)
  qed
qed

lemma patterns_well_formed: "well_formed email_re" "well_formed phone_re" "well_formed card_re"
  by (simp_all add: email_re_def phone_re_def card_re_def seq_def opt_def)

lemma re_search_lang:
  "well_formed r \<Longrightarrow>
     re_search U r text \<longleftrightarrow> (\<exists>p\<in>set (positions None text). \<exists>q. lang U r p q)"
proof -
  assume "well_formed r"
  then have "ends U r p \<noteq> [] \<longleftrightarrow> (\<exists>q. lang U r p q)" for p
    using ends_lang [of r U p] by (metis empty_Collect_eq set_empty)
  then show ?thesis
    by (simp add: re_search_def list_ex_iff)
qed

section \<open>Evaluating the matcher\<close>

lemma ends_applied:
  "ends U Eps p = [p]"
  "ends U (In as) (b, []) = []"
  "ends U (In as) (b, c # cs) = (if in_class U as c then [(Some c, cs)] else [])"
  "ends U Boundary p = (if at_boundary U p then [p] else [])"
  "ends U (Cat r s) p = concat (map (ends U s) (ends U r p))"
  "ends U (Repeat m None r) p = upto (ends U r) (length (snd p)) (times (ends U r) m [p])"
  "ends U (Repeat m (Some k) r) p = upto (ends U r) (k - m) (times (ends U r) m [p])"
  by simp_all

lemma times_unfold:
  "times f 0 ps = ps"
  "k \<noteq> 0 \<Longrightarrow> times f k (p # ps) = times f (k - 1) (concat (map f (p # ps)))"
  by (cases ps, simp_all) (cases k, simp_all)

lemma upto_unfold:
  "upto f 0 ps = ps"
  "k \<noteq> 0 \<Longrightarrow> upto f k (p # ps) = (p # ps) @ upto f (k - 1) (concat (map f (p # ps)))"
  by (cases ps, simp_all) (cases k, simp_all)

subsection \<open>Texts of digits\<close>

lemma digit_classes:
  assumes "plain_digit U c"
  shows "in_class U [Digit] c" "in_class U [Word] c" "in_class U [Word, Lit 46, Lit 45] c"
    "\<not> in_class U [Lit 64] c" "\<not> in_class U [Lit 46] c" "\<not> in_class U [Lit 43] c"
    "\<not> in_class U [Lit 40] c" "\<not> in_class U [Lit 41] c"
    "\<not> in_class U [Lit 45, Lit 46, Space] c" "\<not> in_class U [Lit 32, Lit 45] c"
    "isword U c"
  using assms
  by (auto simp: plain_digit_def in_class_def isword_def isalnum_def isdecimal_def
      split: if_splits)

lemma boundary_digits:
  "plain_digit U c \<Longrightarrow> plain_digit U d \<Longrightarrow> \<not> at_boundary U (Some c, d # ds)"
  "plain_digit U d \<Longrightarrow> at_boundary U (None, d # ds)"
  "plain_digit U c \<Longrightarrow> at_boundary U (Some c, [])"
  by (simp_all add: at_boundary_def word_before_def word_after_def digit_classes)

lemma seventeen_digits_email:
  assumes "plain_digit U a1" "plain_digit U a2" "plain_digit U a3" "plain_digit U a4"
    "plain_digit U a5" "plain_digit U a6" "plain_digit U a7" "plain_digit U a8"
    "plain_digit U a9" "plain_digit U a10" "plain_digit U a11" "plain_digit U a12"
    "plain_digit U a13" "plain_digit U a14" "plain_digit U a15" "plain_digit U a16"
    "plain_digit U a17"
  shows "\<not> re_search U email_re
             [a1, a2, a3, a4, a5, a6, a7, a8, a9, a10, a11, a12, a13, a14, a15, a16, a17]"
  using assms
  by (simp add: re_search_def email_re_def seq_def opt_def ends_applied times_unfold upto_unfold
      digit_classes boundary_digits del: ends.simps)

lemma seventeen_digits_phone:
  assumes "plain_digit U a1" "plain_digit U a2" "plain_digit U a3" "plain_digit U a4"
    "plain_digit U a5" "plain_digit U a6" "plain_digit U a7" "plain_digit U a8"
    "plain_digit U a9" "plain_digit U a10" "plain_digit U a11" "plain_digit U a12"
    "plain_digit U a13" "plain_digit U a14" "plain_digit U a15" "plain_digit U a16"
    "plain_digit U a17"
  shows "\<not> re_search U phone_re
             [a1, a2, a3, a4, a5, a6, a7, a8, a9, a10, a11, a12, a13, a14, a15, a16, a17]"
  using assms
  by (simp add: re_search_def phone_re_def seq_def opt_def ends_applied times_unfold upto_unfold
      digit_classes boundary_digits del: ends.simps)

lemma seventeen_digits_card:
  assumes "plain_digit U a1" "plain_digit U a2" "plain_digit U a3" "plain_digit U a4"
    "plain_digit U a5" "plain_digit U a6" "plain_digit U a7" "plain_digit U a8"
    "plain_digit U a9" "plain_digit U a10" "plain_digit U a11" "plain_digit U a12"
    "plain_digit U a13" "plain_digit U a14" "plain_digit U a15" "plain_digit U a16"
    "plain_digit U a17"
  shows "\<not> re_search U card_re
             [a1, a2, a3, a4, a5, a6, a7, a8, a9, a10, a11, a12, a13, a14, a15, a16, a17]"
  using assms
  by (simp add: re_search_def card_re_def seq_def opt_def ends_applied times_unfold upto_unfold
      digit_classes boundary_digits del: ends.simps)

lemma length_17:
  assumes "length (t :: nat list) = 17"
  obtains a1 a2 a3 a4 a5 a6 a7 a8 a9 a10 a11 a12 a13 a14 a15 a16 a17
  where "t = [a1, a2, a3, a4, a5, a6, a7, a8, a9, a10, a11, a12, a13, a14, a15, a16, a17]"
  using assms by (auto simp: eval_nat_numeral length_Suc_conv)

section \<open>The scanner's properties\<close>

text \<open>
  C5. On the text \<open>contact me at jane.doe@acme.com\<close> the scanner returns the tag
  \<open>email\<close> and nothing else: neither \<open>phone\<close> nor \<open>card-ish\<close> is reported.
\<close>

theorem pii_scan_email_example:
  "pii_scan U (ascii ''contact me at jane.doe@acme.com'') = [ascii ''email'']"
  by code_simp

text \<open>
  C6. On the text \<open>card 4111 1111 1111 1111\<close> the tags that the scanner returns contain
  \<open>card-ish\<close>.
\<close>

theorem pii_scan_card_example:
  "ascii ''card-ish'' \<in> set (pii_scan U (ascii ''card 4111 1111 1111 1111''))"
  by code_simp

text \<open>
  C9. For every text the scanner returns a list without duplicates that is a
  subsequence of \<open>email\<close>, \<open>phone\<close>, \<open>card-ish\<close> in this order: at most three tags, and
  never \<open>unsafe\<close> or \<open>vague\<close>.
\<close>

theorem pii_scan_tags:
  "pii_scan U text \<in> set (subseqs [ascii ''email'', ascii ''phone'', ascii ''card-ish''])
   \<and> distinct (pii_scan U text)
   \<and> length (pii_scan U text) \<le> 3
   \<and> ascii ''unsafe'' \<notin> set (pii_scan U text)
   \<and> ascii ''vague'' \<notin> set (pii_scan U text)"
  by (simp add: pii_scan_def Let_def ascii_def)

text \<open>
  C10. A text of exactly 17 decimal digits gets no tag at all; in particular \<open>card-ish\<close>
  is not reported, although the text contains runs of 13 to 16 digits. The digits are
  any code points that \<open>\d\<close> matches; that none of them is whitespace holds of every
  Unicode table and is a hypothesis here because the table is a parameter.
\<close>

theorem pii_scan_seventeen_digits:
  assumes "length t = 17" and "\<forall>c\<in>set t. isdecimal U c \<and> \<not> isspace U c"
  shows "pii_scan U t = []"
proof -
  obtain a1 a2 a3 a4 a5 a6 a7 a8 a9 a10 a11 a12 a13 a14 a15 a16 a17
    where t: "t = [a1, a2, a3, a4, a5, a6, a7, a8, a9, a10, a11, a12, a13, a14, a15, a16, a17]"
    using assms(1) by (rule length_17)
  have d: "plain_digit U a1" "plain_digit U a2" "plain_digit U a3" "plain_digit U a4"
    "plain_digit U a5" "plain_digit U a6" "plain_digit U a7" "plain_digit U a8"
    "plain_digit U a9" "plain_digit U a10" "plain_digit U a11" "plain_digit U a12"
    "plain_digit U a13" "plain_digit U a14" "plain_digit U a15" "plain_digit U a16"
    "plain_digit U a17"
    using assms(2) unfolding t plain_digit_def by simp_all
  show ?thesis
    unfolding t pii_scan_def
    using seventeen_digits_email [OF d] seventeen_digits_phone [OF d]
      seventeen_digits_card [OF d]
    by (simp add: Let_def)
qed

theorem pii_scan_seventeen_digits_witness:
  "length (ascii ''12345678901234567'') = 17
   \<and> list_all (\<lambda>c. isdecimal ascii_only c \<and> \<not> isspace ascii_only c)
         (ascii ''12345678901234567'')
   \<and> pii_scan ascii_only (ascii ''12345678901234567'') = []"
proof -
  have l: "length (ascii ''12345678901234567'') = 17"
    by (simp add: ascii_def)
  have d: "\<forall>c\<in>set (ascii ''12345678901234567''). isdecimal ascii_only c \<and> \<not> isspace ascii_only c"
    by (simp add: ascii_def isdecimal_def isspace_def)
  from l d pii_scan_seventeen_digits [OF l d] show ?thesis
    by (simp add: list_all_iff)
qed

section \<open>Validation, characterised\<close>

lemma required_Inr:
  "required name check v = Inr y \<longleftrightarrow> (\<exists>x. v = Some x \<and> check x = Inr y)"
  by (auto simp: required_def at_key_def split: option.splits sum.splits)



lemma int_ge_le_Inr: "int_ge_le lo hi v = Inr y \<longleftrightarrow> (lo \<le> v \<and> v \<le> hi \<and> y = v)"
  by (auto simp: int_ge_le_def)

lemma str_max_length_Inr: "str_max_length n v = Inr y \<longleftrightarrow> (length v \<le> n \<and> y = v)"
  by (auto simp: str_max_length_def)

lemma not_Inr_Inl: "(\<forall>y. v \<noteq> Inr y) \<longleftrightarrow> (\<exists>e. v = Inl e)"
  by (cases v) auto

lemma ScoresModel_validate_Inr:
  "ScoresModel_validate obj = Inr m \<longleftrightarrow>
     (\<exists>c s a f. clarity obj = Some c \<and> specificity obj = Some s \<and> answerability obj = Some a
        \<and> safety obj = Some f
        \<and> 0 \<le> c \<and> c \<le> 10 \<and> 0 \<le> s \<and> s \<le> 10 \<and> 0 \<le> a \<and> a \<le> 10 \<and> 0 \<le> f \<and> f \<le> 10
        \<and> m = \<lparr>clarity = c, specificity = s, answerability = a, safety = f\<rparr>)"
proof -
  have "ScoresModel_validate obj = Inr m \<longleftrightarrow>
     (\<exists>c s a f. required ''clarity'' (int_ge_le 0 10) (clarity obj) = Inr c
        \<and> required ''specificity'' (int_ge_le 0 10) (specificity obj) = Inr s
        \<and> required ''answerability'' (int_ge_le 0 10) (answerability obj) = Inr a
        \<and> required ''safety'' (int_ge_le 0 10) (safety obj) = Inr f
        \<and> m = \<lparr>clarity = c, specificity = s, answerability = a, safety = f\<rparr>)"
    unfolding ScoresModel_validate_def Let_def by (auto split: sum.splits)
  then show ?thesis
    by (auto simp: required_Inr int_ge_le_Inr)
qed

lemma RewritesModel_validate_Inr:
  "RewritesModel_validate obj = Inr m \<longleftrightarrow>
     (\<exists>a b. minimal obj = Some a \<and> ideal obj = Some b \<and> length a \<le> 280 \<and> length b \<le> 280
        \<and> m = \<lparr>minimal = a, ideal = b\<rparr>)"
proof -
  have "RewritesModel_validate obj = Inr m \<longleftrightarrow>
     (\<exists>a b. required ''minimal'' (str_max_length 280) (minimal obj) = Inr a
        \<and> required ''ideal'' (str_max_length 280) (ideal obj) = Inr b
        \<and> m = \<lparr>minimal = a, ideal = b\<rparr>)"
    unfolding RewritesModel_validate_def Let_def by (auto split: sum.splits)
  then show ?thesis
    by (auto simp: required_Inr str_max_length_Inr)
qed

lemma QuestionReview_validate_Inr:
  "QuestionReview_validate fe obj = Inr out \<longleftrightarrow>
     (\<exists>q m a f g c s r.
        required ''original_question'' unconstrained (original_question obj) = Inr q
      \<and> list_field fe ''missing_info'' (missing_info obj) = Inr m
      \<and> list_field fe ''assumptions'' (assumptions obj) = Inr a
      \<and> list_field fe ''followups'' (followups obj) = Inr f
      \<and> with_default ''flags'' [] unconstrained (flags obj) = Inr g
      \<and> required ''classification'' ClassificationModel_validate (classification obj) = Inr c
      \<and> required ''scores'' ScoresModel_validate (scores obj) = Inr s
      \<and> required ''rewrites'' RewritesModel_validate (rewrites obj) = Inr r
      \<and> out = \<lparr>original_question = q, missing_info = m, assumptions = a, followups = f,
                  flags = g, classification = c, scores = s, rewrites = r\<rparr>)"
  unfolding QuestionReview_validate_def Let_def
  by (auto split: sum.splits)

lemma example_obj_valid_CLI: "QuestionReview_validate CLI example_obj = Inr example_review"
  by code_simp

lemma example_obj_valid_ST: "QuestionReview_validate ST example_obj = Inr example_review"
  by code_simp



section \<open>The schema's properties\<close>

text \<open>
  C2. Given integers for the four scores, \<open>ScoresModel\<close> validates if and only if each of
  them lies in 0..10. On success the fields hold exactly the given values; otherwise
  validation fails, for \<open>ScoresModel\<close> and for any \<open>QuestionReview\<close> object with these
  scores: no value is clamped into the range.
\<close>

theorem scores_validate_iff_in_range:
  "((\<exists>m. ScoresModel_validate
            \<lparr>clarity = Some c, specificity = Some s, answerability = Some a, safety = Some f\<rparr>
          = Inr m)
      \<longleftrightarrow> 0 \<le> c \<and> c \<le> 10 \<and> 0 \<le> s \<and> s \<le> 10 \<and> 0 \<le> a \<and> a \<le> 10 \<and> 0 \<le> f \<and> f \<le> 10)
   \<and> (\<forall>m. ScoresModel_validate
            \<lparr>clarity = Some c, specificity = Some s, answerability = Some a, safety = Some f\<rparr>
          = Inr m
        \<longrightarrow> m = \<lparr>clarity = c, specificity = s, answerability = a, safety = f\<rparr>)
   \<and> (\<not> (0 \<le> c \<and> c \<le> 10 \<and> 0 \<le> s \<and> s \<le> 10 \<and> 0 \<le> a \<and> a \<le> 10 \<and> 0 \<le> f \<and> f \<le> 10)
        \<longrightarrow> (\<exists>es. ScoresModel_validate
                   \<lparr>clarity = Some c, specificity = Some s, answerability = Some a,
                    safety = Some f\<rparr>
                 = Inl es)
          \<and> (\<forall>fe obj. scores obj
                        = Some \<lparr>clarity = Some c, specificity = Some s, answerability = Some a,
                                safety = Some f\<rparr>
                \<longrightarrow> (\<exists>es. QuestionReview_validate fe obj = Inl es)))"
proof -
  let ?o = "\<lparr>clarity = Some c, specificity = Some s, answerability = Some a, safety = Some f\<rparr>"
  let ?ok = "0 \<le> c \<and> c \<le> 10 \<and> 0 \<le> s \<and> s \<le> 10 \<and> 0 \<le> a \<and> a \<le> 10 \<and> 0 \<le> f \<and> f \<le> 10"
  have 1: "(\<exists>m. ScoresModel_validate ?o = Inr m) \<longleftrightarrow> ?ok"
    by (simp add: ScoresModel_validate_Inr)
  have 2: "\<forall>m. ScoresModel_validate ?o = Inr m
             \<longrightarrow> m = \<lparr>clarity = c, specificity = s, answerability = a, safety = f\<rparr>"
    by (simp add: ScoresModel_validate_Inr)
  have 3: "\<exists>es. ScoresModel_validate ?o = Inl es" if "\<not> ?ok"
    using that 1 not_Inr_Inl [of "ScoresModel_validate ?o"] by blast
  have 4: "\<exists>es. QuestionReview_validate fe obj = Inl es"
    if "\<not> ?ok" and "scores obj = Some ?o" for fe obj
  proof -
    have "QuestionReview_validate fe obj \<noteq> Inr out" for out
      using that 1 by (auto simp: QuestionReview_validate_Inr required_Inr)
    then show ?thesis
      using not_Inr_Inl [of "QuestionReview_validate fe obj"] by blast
  qed
  from 1 2 3 4 show ?thesis by blast
qed


theorem scores_validate_iff_in_range_witness:
  "ScoresModel_validate
     \<lparr>clarity = Some 3, specificity = Some 0, answerability = Some 2, safety = Some 10\<rparr>
     = Inr \<lparr>clarity = 3, specificity = 0, answerability = 2, safety = 10\<rparr>
   \<and> (\<exists>es. ScoresModel_validate
              \<lparr>clarity = Some 11, specificity = Some 0, answerability = Some 2,
               safety = Some 10\<rparr> = Inl es)
   \<and> (\<exists>es. ScoresModel_validate
              \<lparr>clarity = Some 3, specificity = Some 0, answerability = Some 2,
               safety = Some (- 1)\<rparr> = Inl es)"
proof -
  have ok: "(0::int) \<le> 3 \<and> (3::int) \<le> 10 \<and> (0::int) \<le> 0 \<and> (0::int) \<le> 10
            \<and> (0::int) \<le> 2 \<and> (2::int) \<le> 10 \<and> (0::int) \<le> 10 \<and> (10::int) \<le> 10"
    by simp
  have hi: "\<not> ((0::int) \<le> 11 \<and> (11::int) \<le> 10 \<and> (0::int) \<le> 0 \<and> (0::int) \<le> 10
            \<and> (0::int) \<le> 2 \<and> (2::int) \<le> 10 \<and> (0::int) \<le> 10 \<and> (10::int) \<le> 10)"
    by simp
  have lo: "\<not> ((0::int) \<le> 3 \<and> (3::int) \<le> 10 \<and> (0::int) \<le> 0 \<and> (0::int) \<le> 10
            \<and> (0::int) \<le> 2 \<and> (2::int) \<le> 10 \<and> (0::int) \<le> - 1 \<and> (- 1::int) \<le> 10)"
    by simp
  from scores_validate_iff_in_range [of 3 0 2 10] ok
  have 1: "ScoresModel_validate
     \<lparr>clarity = Some 3, specificity = Some 0, answerability = Some 2, safety = Some 10\<rparr>
     = Inr \<lparr>clarity = 3, specificity = 0, answerability = 2, safety = 10\<rparr>"
    by blast
  from scores_validate_iff_in_range [of 11 0 2 10] hi
  have 2: "\<exists>es. ScoresModel_validate
              \<lparr>clarity = Some 11, specificity = Some 0, answerability = Some 2,
               safety = Some 10\<rparr> = Inl es"
    by blast
  from scores_validate_iff_in_range [of 3 0 2 "- 1"] lo
  have 3: "\<exists>es. ScoresModel_validate
              \<lparr>clarity = Some 3, specificity = Some 0, answerability = Some 2,
               safety = Some (- 1)\<rparr> = Inl es"
    by blast
  from 1 2 3 show ?thesis by blast
qed

text \<open>
  C7. In every validated \<open>QuestionReview\<close> the two rewrites have at most 280 code points
  each, and an object with a longer rewrite fails validation: \<open>Runner.run\<close> raises and
  returns no record.
\<close>

theorem rewrites_length_bound:
  "(QuestionReview_validate fe obj = Inr out
      \<longrightarrow> length (minimal (rewrites out)) \<le> 280 \<and> length (ideal (rewrites out)) \<le> 280)
   \<and> (rewrites obj = Some r
        \<and> ((\<exists>m. minimal r = Some m \<and> 280 < length m) \<or> (\<exists>i. ideal r = Some i \<and> 280 < length i))
      \<longrightarrow> (\<exists>es. QuestionReview_validate fe obj = Inl es)
        \<and> (\<forall>be q. be q = Some obj
              \<longrightarrow> (\<exists>es. Runner_run fe be q = Inl (ModelBehaviorError es))))"
proof -
  have 1: "length (minimal (rewrites out)) \<le> 280 \<and> length (ideal (rewrites out)) \<le> 280"
    if "QuestionReview_validate fe obj = Inr out"
    using that by (auto simp: QuestionReview_validate_Inr required_Inr RewritesModel_validate_Inr)
  have 2: "\<exists>es. QuestionReview_validate fe obj = Inl es"
    if "rewrites obj = Some r"
      and "(\<exists>m. minimal r = Some m \<and> 280 < length m) \<or> (\<exists>i. ideal r = Some i \<and> 280 < length i)"
  proof -
    have "QuestionReview_validate fe obj \<noteq> Inr out'" for out'
      using that
      by (auto simp: QuestionReview_validate_Inr required_Inr RewritesModel_validate_Inr)
    then show ?thesis
      using not_Inr_Inl [of "QuestionReview_validate fe obj"] by blast
  qed
  have 3: "\<exists>es. Runner_run fe be q = Inl (ModelBehaviorError es)"
    if "\<exists>es. QuestionReview_validate fe obj = Inl es" and "be q = Some obj" for be q
    using that by (auto simp: Runner_run_def)
  from 1 2 3 show ?thesis by blast
qed

theorem rewrites_length_bound_witness:
  "QuestionReview_validate CLI example_obj = Inr example_review
   \<and> length (minimal (rewrites example_review)) \<le> 280
   \<and> length (ideal (rewrites example_review)) = 280
   \<and> rewrites (example_obj\<lparr>rewrites := Some \<lparr>minimal = Some (replicate 281 233),
                                              ideal = Some []\<rparr>\<rparr>)
       = Some \<lparr>minimal = Some (replicate 281 233), ideal = Some []\<rparr>
   \<and> 280 < length (replicate 281 (233 :: nat))
   \<and> (\<exists>es. QuestionReview_validate CLI
              (example_obj\<lparr>rewrites := Some \<lparr>minimal = Some (replicate 281 233),
                                              ideal = Some []\<rparr>\<rparr>) = Inl es)"
proof -
  have v: "QuestionReview_validate CLI example_obj = Inr example_review"
    by (rule example_obj_valid_CLI)
  have l: "length (ideal (rewrites example_review)) = 280"
    by (simp add: example_review_def)
  let ?r = "\<lparr>minimal = Some (replicate 281 233), ideal = Some ([] :: pystr)\<rparr>"
  have r: "rewrites (example_obj\<lparr>rewrites := Some ?r\<rparr>) = Some ?r"
    by simp
  have m: "(\<exists>m. minimal ?r = Some m \<and> 280 < length m) \<or> (\<exists>i. ideal ?r = Some i \<and> 280 < length i)"
    by simp
  from rewrites_length_bound [where fe = CLI and obj = example_obj and out = example_review] v
  have 1: "length (minimal (rewrites example_review)) \<le> 280" by blast
  from rewrites_length_bound
    [where fe = CLI and obj = "example_obj\<lparr>rewrites := Some ?r\<rparr>" and r = ?r] r m
  have 2: "\<exists>es. QuestionReview_validate CLI (example_obj\<lparr>rewrites := Some ?r\<rparr>) = Inl es"
    by blast
  from v l r 1 2 show ?thesis by simp
qed




section \<open>Trimming and the runs of \<open>main\<close>\<close>

lemma rstrip_keeps_head:
  assumes "a = [] \<or> \<not> P (hd a)"
  shows "dropWhile P (rev (dropWhile P (rev a))) = rev (dropWhile P (rev a))"
proof -
  define b where "b = dropWhile P (rev a)"
  have "rev a = takeWhile P (rev a) @ b"
    by (simp add: b_def)
  then have "rev (rev a) = rev (takeWhile P (rev a) @ b)"
    by simp
  then have a: "a = rev b @ rev (takeWhile P (rev a))"
    by simp
  show ?thesis
  proof (cases "rev b")
    case Nil
    then show ?thesis by (simp add: b_def [symmetric])
  next
    case (Cons x xs)
    with a have "a = x # xs @ rev (takeWhile P (rev a))"
      by simp
    then have "hd a = x" and "a \<noteq> []"
      by (metis list.sel(1), metis list.distinct(1))
    with assms have "\<not> P x"
      by auto
    then show ?thesis
      unfolding b_def [symmetric] Cons by simp
  qed
qed

lemma strip_idem: "strip U (strip U s) = strip U s"
proof -
  let ?P = "isspace U"
  let ?a = "dropWhile ?P s"
  have h: "?a = [] \<or> \<not> ?P (hd ?a)"
    using hd_dropWhile [of ?P s] by blast
  have 1: "dropWhile ?P (rev (dropWhile ?P (rev ?a))) = rev (dropWhile ?P (rev ?a))"
    using h by (rule rstrip_keeps_head)
  show ?thesis
    unfolding strip_def lstrip_def rstrip_def 1 by simp
qed

lemma main_requests: "Generation_request q' \<in> set (fst (main U be q)) \<Longrightarrow> q' = q"
  by (auto simp: main_def split: sum.splits)

lemma enforce_ground_truth_cases:
  "strip U (original_question (enforce_ground_truth U out q)) = strip U q"
  "strip U (original_question out) \<noteq> strip U q \<Longrightarrow>
     enforce_ground_truth U out q = out\<lparr>original_question := q\<rparr>"
  "strip U (original_question out) = strip U q \<Longrightarrow> enforce_ground_truth U out q = out"
  by (simp_all add: enforce_ground_truth_def)


section \<open>The programs' properties\<close>

text \<open>
  C4. A blank question never reaches the backend. On the command line, when the joined
  arguments and then the line read at the prompt are both empty after trimming, the
  script prints its message and exits with status 1; on the page, a blank text box gets
  the warning and the run stops. In every run of either program, each generation request
  carries a question that is not blank.
\<close>

theorem blank_question_never_requested:
  "(\<not> not_str (getenv_OPENAI_API_KEY w)
      \<and> strip U (str_join (ascii '' '') (drop 1 (argv w))) = []
      \<and> stdin_line w = Some line \<and> strip U line = []
    \<longrightarrow> cli_script U be w
          = ([Input_prompt (ascii ''Enter your question: ''),
              Print (ascii ''No question provided. Exiting.'')], SystemExit 1))
   \<and> (Generation_request q \<in> set (fst (cli_script U be w)) \<longrightarrow> strip U q \<noteq> [])
   \<and> (st_secrets v = Secrets_file s
      \<and> \<not> not_str (case s of Some k \<Rightarrow> Some k | None \<Rightarrow> st_getenv_OPENAI_API_KEY v)
      \<and> run_btn v \<and> strip U (text_area_value v) = []
    \<longrightarrow> st_script U be v
          = ([St_text_area, St_warning (ascii ''Please enter a question.'')], St_stop))
   \<and> (Generation_request q \<in> set (fst (st_script U be v)) \<longrightarrow> strip U q \<noteq> [])"
proof -
  have 1: "cli_script U be w
          = ([Input_prompt (ascii ''Enter your question: ''),
              Print (ascii ''No question provided. Exiting.'')], SystemExit 1)"
    if "\<not> not_str (getenv_OPENAI_API_KEY w)"
      and "strip U (str_join (ascii '' '') (drop 1 (argv w))) = []"
      and "stdin_line w = Some line" and "strip U line = []"
    using that by (simp add: cli_script_def Let_def)
  have 2: "strip U q \<noteq> []" if r: "Generation_request q \<in> set (fst (cli_script U be w))"
  proof -
    let ?a = "strip U (str_join (ascii '' '') (drop 1 (argv w)))"
    from r have k: "\<not> not_str (getenv_OPENAI_API_KEY w)"
      by (auto simp: cli_script_def Let_def split: if_splits)
    show ?thesis
    proof (cases "?a = []")
      case False
      with r k have "Generation_request q \<in> set (fst (main U be ?a))"
        by (simp add: cli_script_def Let_def)
      then have "q = ?a" by (rule main_requests)
      with False show ?thesis by (simp add: strip_idem)
    next
      case True
      show ?thesis
      proof (cases "stdin_line w")
        case None
        with r k True show ?thesis
          by (simp add: cli_script_def Let_def)
      next
        case (Some l)
        show ?thesis
        proof (cases "strip U l = []")
          case True
          with r k \<open>?a = []\<close> Some show ?thesis
            by (simp add: cli_script_def Let_def)
        next
          case False
          with r k \<open>?a = []\<close> Some
          have "Generation_request q \<in> set (fst (main U be (strip U l)))"
            by (auto simp: cli_script_def Let_def split: prod.splits)
          then have "q = strip U l" by (rule main_requests)
          with False show ?thesis by (simp add: strip_idem)
        qed
      qed
    qed
  qed
  have 3: "st_script U be v
          = ([St_text_area, St_warning (ascii ''Please enter a question.'')], St_stop)"
    if "st_secrets v = Secrets_file s"
      and "\<not> not_str (case s of Some k \<Rightarrow> Some k | None \<Rightarrow> st_getenv_OPENAI_API_KEY v)"
      and "run_btn v" and "strip U (text_area_value v) = []"
    using that by (cases s) (simp_all add: st_script_def secrets_get_def Let_def)
  have 4: "strip U q \<noteq> []" if "Generation_request q \<in> set (fst (st_script U be v))"
    using that
    by (auto simp: st_script_def Let_def render_def bullets_def split: if_splits sum.splits)
  from 1 2 3 4 show ?thesis by blast
qed

theorem blank_question_never_requested_witness:
  "cli_script ascii_only paraphrasing_backend blank_cli_world
     = ([Input_prompt (ascii ''Enter your question: ''),
         Print (ascii ''No question provided. Exiting.'')], SystemExit 1)
   \<and> st_script ascii_only paraphrasing_backend blank_st_world
     = ([St_text_area, St_warning (ascii ''Please enter a question.'')], St_stop)
   \<and> Generation_request (ascii ''Fix this SQL?'')
       \<in> set (fst (cli_script ascii_only paraphrasing_backend asking_cli_world))
   \<and> Generation_request (ascii ''Fix this SQL?'')
       \<in> set (fst (st_script ascii_only paraphrasing_backend asking_st_world))
   \<and> strip ascii_only (ascii ''Fix this SQL?'') \<noteq> []"
proof -
  let ?q = "ascii ''Fix this SQL?''"
  have k: "\<not> not_str (getenv_OPENAI_API_KEY blank_cli_world)"
    by (simp add: blank_cli_world_def not_str_def ascii_def)
  have a: "strip ascii_only (str_join (ascii '' '') (drop 1 (argv blank_cli_world))) = []"
    by code_simp
  have l: "stdin_line blank_cli_world = Some (ascii ''   '')"
    by (simp add: blank_cli_world_def)
  have s: "strip ascii_only (ascii ''   '') = []"
    by code_simp
  have k': "st_secrets blank_st_world = Secrets_file None"
    "\<not> not_str (case None of Some k \<Rightarrow> Some k
                 | None \<Rightarrow> st_getenv_OPENAI_API_KEY blank_st_world)"
    by (simp_all add: blank_st_world_def not_str_def ascii_def)
  have b: "run_btn blank_st_world"
    by (simp add: blank_st_world_def)
  have t: "strip ascii_only (text_area_value blank_st_world) = []"
    by code_simp
  from blank_question_never_requested
    [where U = ascii_only and be = paraphrasing_backend and w = blank_cli_world
       and line = "ascii ''   ''" and v = blank_st_world and s = None]
    k a l s k' b t
  have 1: "cli_script ascii_only paraphrasing_backend blank_cli_world
     = ([Input_prompt (ascii ''Enter your question: ''),
         Print (ascii ''No question provided. Exiting.'')], SystemExit 1)"
    and 2: "st_script ascii_only paraphrasing_backend blank_st_world
     = ([St_text_area, St_warning (ascii ''Please enter a question.'')], St_stop)"
    by blast+
  have j: "strip ascii_only (str_join (ascii '' '') (drop 1 (argv asking_cli_world))) = ?q"
    by code_simp
  have n: "?q \<noteq> []"
    by (simp add: ascii_def)
  have g: "\<not> not_str (getenv_OPENAI_API_KEY asking_cli_world)"
    by (simp add: asking_cli_world_def not_str_def ascii_def)
  have c: "fst (cli_script ascii_only paraphrasing_backend asking_cli_world)
           = fst (main ascii_only paraphrasing_backend ?q)"
    using n g j by (simp add: cli_script_def Let_def)
  have m: "Generation_request ?q \<in> set (fst (main ascii_only paraphrasing_backend ?q))"
    by (simp add: main_def split: sum.splits)
  from c m have 3: "Generation_request ?q
       \<in> set (fst (cli_script ascii_only paraphrasing_backend asking_cli_world))"
    by simp
  have u: "strip ascii_only (text_area_value asking_st_world) = ?q"
    by code_simp
  have g': "secrets_get (st_secrets asking_st_world) (st_getenv_OPENAI_API_KEY asking_st_world)
              = Inr (Some (ascii ''sk-test''))"
    "\<not> not_str (Some (ascii ''sk-test''))"
    "run_btn asking_st_world" "text_area_value asking_st_world = ?q"
    by (simp_all add: asking_st_world_def secrets_get_def not_str_def ascii_def)
  have 4: "Generation_request ?q
       \<in> set (fst (st_script ascii_only paraphrasing_backend asking_st_world))"
    using n u g' by (simp add: st_script_def Let_def split: sum.splits)
  from blank_question_never_requested
    [where U = ascii_only and be = paraphrasing_backend and w = asking_cli_world
       and q = ?q] 3
  have 5: "strip ascii_only ?q \<noteq> []"
    by blast
  from 1 2 3 4 5 show ?thesis by blast
qed

text \<open>
  C8. Without a credential the programs end at startup, whatever the arguments, the
  input and the backend are. The command line raises \<open>ValueError\<close> before it reads its
  arguments or prompts. The page ends before it renders the question box: with no
  secrets file it raises at the lookup of the key, its first step, whatever the
  environment holds; with a secrets file that has no key, or an empty one, and no key in
  the environment, it shows the error and stops. None of these runs contains a
  generation request.
\<close>

theorem missing_credential_is_fatal:
  "(not_str (getenv_OPENAI_API_KEY w)
    \<longrightarrow> cli_script U be w = ([], Raised (ValueError (ascii ''OPENAI_API_KEY is not set''))))
   \<and> (st_secrets v = No_secrets_file
    \<longrightarrow> st_script U be v = ([], Raised StreamlitSecretNotFoundError))
   \<and> (st_secrets v = Secrets_file s \<and> not_str s \<and> not_str (st_getenv_OPENAI_API_KEY v)
    \<longrightarrow> st_script U be v
          = ([St_error (ascii (''OPENAI_API_KEY is not set. ''
                               @ ''Add it to .streamlit/secrets.toml or your environment.''))],
             St_stop))"
  by (auto simp: cli_script_def st_script_def secrets_get_def Let_def not_str_def
      split: option.splits)

theorem missing_credential_is_fatal_witness:
  "cli_script ascii_only paraphrasing_backend keyless_cli_world
     = ([], Raised (ValueError (ascii ''OPENAI_API_KEY is not set'')))
   \<and> st_script ascii_only paraphrasing_backend no_secrets_st_world
     = ([], Raised StreamlitSecretNotFoundError)
   \<and> st_script ascii_only paraphrasing_backend keyless_st_world
     = ([St_error (ascii (''OPENAI_API_KEY is not set. ''
                          @ ''Add it to .streamlit/secrets.toml or your environment.''))],
        St_stop)"
proof -
  have c: "not_str (getenv_OPENAI_API_KEY keyless_cli_world)"
    by (simp add: keyless_cli_world_def not_str_def)
  have n: "st_secrets no_secrets_st_world = No_secrets_file"
    by (simp add: no_secrets_st_world_def)
  have s: "st_secrets keyless_st_world = Secrets_file None" "not_str None"
    "not_str (st_getenv_OPENAI_API_KEY keyless_st_world)"
    by (simp_all add: keyless_st_world_def not_str_def)
  from missing_credential_is_fatal
    [where U = ascii_only and be = paraphrasing_backend and w = keyless_cli_world
       and v = no_secrets_st_world] c n
  have 1: "cli_script ascii_only paraphrasing_backend keyless_cli_world
     = ([], Raised (ValueError (ascii ''OPENAI_API_KEY is not set'')))"
    and 2: "st_script ascii_only paraphrasing_backend no_secrets_st_world
     = ([], Raised StreamlitSecretNotFoundError)"
    by blast+
  from missing_credential_is_fatal
    [where U = ascii_only and be = paraphrasing_backend and v = keyless_st_world
       and s = None] s
  have 3: "st_script ascii_only paraphrasing_backend keyless_st_world
     = ([St_error (ascii (''OPENAI_API_KEY is not set. ''
                          @ ''Add it to .streamlit/secrets.toml or your environment.''))],
        St_stop)"
    by blast
  from 1 2 3 show ?thesis by blast
qed

text \<open>
  C1. Whenever \<open>Runner.run\<close> returns a record for the question \<open>q\<close>, the record that the
  program goes on with has an \<open>original_question\<close> equal to \<open>q\<close> up to leading and
  trailing whitespace. If the backend's echo differs from \<open>q\<close> after trimming both, the
  field is replaced by \<open>q\<close> itself, untrimmed; otherwise the record is unchanged. This
  record is what the command line prints and what the page renders.
\<close>

theorem ground_truth_enforced:
  assumes "Runner_run fe be q = Inr out"
  shows "strip U (original_question (enforce_ground_truth U out q)) = strip U q
         \<and> (strip U (original_question out) \<noteq> strip U q
              \<longrightarrow> enforce_ground_truth U out q = out\<lparr>original_question := q\<rparr>)
         \<and> (strip U (original_question out) = strip U q
              \<longrightarrow> enforce_ground_truth U out q = out)
         \<and> (fe = CLI
              \<longrightarrow> main U be q
                  = ([Generation_request q, Print_json (enforce_ground_truth U out q)],
                     Finished))
         \<and> (fe = ST
              \<and> st_secrets w = Secrets_file s
              \<and> \<not> not_str (case s of Some k \<Rightarrow> Some k
                              | None \<Rightarrow> st_getenv_OPENAI_API_KEY w)
              \<and> run_btn w \<and> text_area_value w = q \<and> strip U q \<noteq> []
              \<longrightarrow> st_script U be w
                  = ([St_text_area, Generation_request q]
                     @ render (enforce_ground_truth U out q), Finished))"
  using assms
  by (auto simp: Let_def enforce_ground_truth_cases main_def st_script_def secrets_get_def
      split: option.splits)

theorem ground_truth_enforced_witness:
  "Runner_run CLI paraphrasing_backend (ascii ''Fix this SQL?'') = Inr example_review
   \<and> enforce_ground_truth ascii_only example_review (ascii ''Fix this SQL?'')
       = example_review\<lparr>original_question := ascii ''Fix this SQL?''\<rparr>
   \<and> main ascii_only paraphrasing_backend (ascii ''Fix this SQL?'')
       = ([Generation_request (ascii ''Fix this SQL?''),
           Print_json (example_review\<lparr>original_question := ascii ''Fix this SQL?''\<rparr>)],
          Finished)
   \<and> Runner_run ST echoing_backend (ascii ''Fix this SQL?'')
       = Inr (example_review\<lparr>original_question := ascii ''Fix this SQL? ''\<rparr>)
   \<and> enforce_ground_truth ascii_only
         (example_review\<lparr>original_question := ascii ''Fix this SQL? ''\<rparr>)
         (ascii ''Fix this SQL?'')
       = example_review\<lparr>original_question := ascii ''Fix this SQL? ''\<rparr>
   \<and> st_script ascii_only echoing_backend asking_st_world
       = ([St_text_area, Generation_request (ascii ''Fix this SQL?'')]
          @ render (example_review\<lparr>original_question := ascii ''Fix this SQL? ''\<rparr>),
          Finished)"
proof -
  let ?q = "ascii ''Fix this SQL?''"
  let ?e = "example_review\<lparr>original_question := ascii ''Fix this SQL? ''\<rparr>"
  have r: "Runner_run CLI paraphrasing_backend ?q = Inr example_review"
    by (simp add: Runner_run_def paraphrasing_backend_def example_obj_valid_CLI)
  have d: "strip ascii_only (original_question example_review) \<noteq> strip ascii_only ?q"
    by code_simp
  have r': "Runner_run ST echoing_backend ?q = Inr ?e"
    by code_simp
  have s: "strip ascii_only (original_question ?e) = strip ascii_only ?q"
    by code_simp
  have w: "st_secrets asking_st_world = Secrets_file (Some (ascii ''sk-test''))"
    "\<not> not_str (case Some (ascii ''sk-test'') of Some k \<Rightarrow> Some k
                 | None \<Rightarrow> st_getenv_OPENAI_API_KEY asking_st_world)"
    "run_btn asking_st_world" "text_area_value asking_st_world = ?q"
    by (simp_all add: asking_st_world_def not_str_def ascii_def)
  have n: "strip ascii_only ?q \<noteq> []"
    by code_simp
  from ground_truth_enforced [OF r, where U = ascii_only] d
  have 1: "enforce_ground_truth ascii_only example_review ?q
             = example_review\<lparr>original_question := ?q\<rparr>"
    and 2: "main ascii_only paraphrasing_backend ?q
       = ([Generation_request ?q, Print_json (enforce_ground_truth ascii_only example_review ?q)],
          Finished)"
    by blast+
  from ground_truth_enforced
    [OF r', where U = ascii_only and w = asking_st_world and s = "Some (ascii ''sk-test'')"]
    s w n
  have 3: "enforce_ground_truth ascii_only ?e ?q = ?e"
    and 4: "st_script ascii_only echoing_backend asking_st_world
       = ([St_text_area, Generation_request ?q] @ render (enforce_ground_truth ascii_only ?e ?q),
          Finished)"
    by blast+
  from r 1 2 r' 3 4 show ?thesis by simp
qed

end
